theory Spec2Isabelle
  imports Main "HOL-Library.Word" "HOL-Library.Multiset"
    "HOL-Library.Char_ord" "HOL-Library.List_Lexorder"
begin

section \<open>The data model\<close>

text \<open>
  The treat catalogue keeps \<^verbatim>\<open>Treat\<close> structs behind the \<^verbatim>\<open>TreatDatabase\<close>
  interface. Two backends implement it: \<^verbatim>\<open>memoryDB\<close> (a map guarded by a mutex) and
  \<^verbatim>\<open>firestoreDB\<close> (an adapter over a Cloud Firestore client).

  \<^verbatim>\<open>memoryDB\<close> stores \<^verbatim>\<open>*Treat\<close> pointers, never copies, and \<^verbatim>\<open>AddTreat\<close> writes the
  new id through the pointer it is given. The embedding therefore has an explicit heap:
  an address is a natural number, a \<^verbatim>\<open>*Treat\<close> is an optional address (\<open>None\<close> is the
  nil pointer) and the heap gives the struct every address points to. Go is garbage
  collected, so every non-nil pointer is valid and the heap is a total function.
\<close>

record Treat =
  ID :: string
  Title :: string
  Author :: string
  PublishedDate :: string
  ImageURL :: string
  Description :: string

type_synonym addr = nat
type_synonym ptr = "addr option"
type_synonym heap = "addr \<Rightarrow> Treat"

text \<open>
  \<^verbatim>\<open>nextID\<close> is an \<^verbatim>\<open>int64\<close>: a 64-bit word read as a signed number, whose increment
  wraps around. \<^verbatim>\<open>treats\<close> is a Go map, which may be nil (\<^verbatim>\<open>Close\<close> makes it so):
  \<open>None\<close> is the nil map, \<open>Some m\<close> an allocated one. Both store sites dereference the
  pointer before storing it, so only non-nil pointers ever enter the map and its values
  are addresses. The mutex serialises the methods; each method is modelled as one
  atomic transition.
\<close>

record memoryDB =
  nextID :: "64 word"
  treats :: "(string \<rightharpoonup> addr) option"

text \<open>
  The errors of the source are built by \<^verbatim>\<open>errors.New\<close> and \<^verbatim>\<open>fmt.Errorf\<close>; there is one
  constructor per construction site, carrying what the message is formatted from.
  A run-time panic is not an error return and is kept apart.
\<close>

type_synonym cause = string

datatype error =
    MemGetNotFound string
  | MemDeleteUnassigned
  | MemDeleteNotExist string
  | MemUpdateUnassigned
  | FsGetError cause
  | FsSetError cause

datatype panic = NilDereference | NilMapAssignment

datatype 'a outcome = Ok 'a | Err error | Panic panic

text \<open>
  The specification speaks of error kinds. The source has none (every error is a
  message), so the kinds are read off the construction sites, following the
  specification's section on error handling: an empty id is an invalid argument, a
  missing id is not-found, and whatever the Firestore client reports is wrapped as a
  backend error.
\<close>

datatype error_kind = InvalidArgument | NotFound | ConnectionError | BackendError

fun kind_of :: "error \<Rightarrow> error_kind" where
  "kind_of (MemGetNotFound _) = NotFound"
| "kind_of MemDeleteUnassigned = InvalidArgument"
| "kind_of (MemDeleteNotExist _) = NotFound"
| "kind_of MemUpdateUnassigned = InvalidArgument"
| "kind_of (FsGetError _) = BackendError"
| "kind_of (FsSetError _) = BackendError"

section \<open>Library routines the store calls\<close>

text \<open>
  \<^verbatim>\<open>strconv.FormatInt(i, 10)\<close> of the Go standard library: the decimal digits of a
  signed 64-bit integer, with a leading minus sign when it is negative.
\<close>

definition digit_char :: "nat \<Rightarrow> char" where
  "digit_char d = ''0123456789'' ! d"

fun dec :: "nat \<Rightarrow> string" where
  "dec n = (if n < 10 then [digit_char n] else dec (n div 10) @ [digit_char (n mod 10)])"

declare dec.simps [simp del]

definition FormatInt :: "64 word \<Rightarrow> string" where
  "FormatInt i = (if sint i < 0 then CHR ''-'' # dec (nat (- sint i)) else dec (nat (sint i)))"

text \<open>
  \<^verbatim>\<open>sort.Slice\<close> of the Go standard library sorts a slice by a caller-supplied
  \<^verbatim>\<open>less\<close>; it is not stable. It is modelled by insertion sort, the routine the library
  itself runs on short slices: each element in turn moves left past the elements it is
  \<^verbatim>\<open>less\<close> than. How elements with equal keys end up is not used by any result below.
\<close>

fun insert_by :: "('a \<Rightarrow> 'a \<Rightarrow> bool) \<Rightarrow> 'a \<Rightarrow> 'a list \<Rightarrow> 'a list" where
  "insert_by lt x [] = [x]"
| "insert_by lt x (y # ys) = (if lt x y then x # y # ys else y # insert_by lt x ys)"

definition sort_Slice :: "('a \<Rightarrow> 'a \<Rightarrow> bool) \<Rightarrow> 'a list \<Rightarrow> 'a list" where
  "sort_Slice lt xs = foldl (\<lambda>acc x. insert_by lt x acc) [] xs"

text \<open>
  A \<^verbatim>\<open>range\<close> over a Go map visits every entry once, in an order the runtime chooses.
  The order is a parameter of the model: a list of entries is a possible enumeration
  of a map when its keys are distinct and it holds exactly the map's entries.
\<close>

definition range_of :: "(string \<rightharpoonup> addr) \<Rightarrow> (string \<times> addr) list \<Rightarrow> bool" where
  "range_of m kvs \<longleftrightarrow> distinct (map fst kvs) \<and> map_of kvs = m"

section \<open>The in-memory store\<close>

definition newMemoryDB :: memoryDB where
  "newMemoryDB = \<lparr>nextID = 1, treats = Some Map.empty\<rparr>"

text \<open>\<^verbatim>\<open>Close\<close> sets the map to nil and returns a nil error.\<close>

definition memoryDB_Close :: "memoryDB \<Rightarrow> heap \<Rightarrow> unit outcome \<times> memoryDB \<times> heap" where
  "memoryDB_Close db h = (Ok (), db\<lparr>treats := None\<rparr>, h)"

text \<open>
  \<^verbatim>\<open>GetTreat\<close> reads the map with the two-valued form; on a nil map that read finds
  nothing. It hands out the stored pointer itself.
\<close>

definition memoryDB_GetTreat :: "memoryDB \<Rightarrow> heap \<Rightarrow> string \<Rightarrow> ptr outcome \<times> memoryDB \<times> heap" where
  "memoryDB_GetTreat db h i =
     (case treats db of
        None \<Rightarrow> (Err (MemGetNotFound i), db, h)
      | Some m \<Rightarrow>
          (case m i of
             None \<Rightarrow> (Err (MemGetNotFound i), db, h)
           | Some a \<Rightarrow> (Ok (Some a), db, h)))"

text \<open>
  \<^verbatim>\<open>AddTreat\<close> first writes the formatted counter into the caller's struct (a nil
  pointer panics there), then stores the pointer under that id (a nil map panics there,
  after the write to the struct), then increments the counter.
\<close>

definition memoryDB_AddTreat :: "memoryDB \<Rightarrow> heap \<Rightarrow> ptr \<Rightarrow> string outcome \<times> memoryDB \<times> heap" where
  "memoryDB_AddTreat db h t =
     (case t of
        None \<Rightarrow> (Panic NilDereference, db, h)
      | Some a \<Rightarrow>
          (let newid = FormatInt (nextID db);
               h' = h(a := (h a)\<lparr>ID := newid\<rparr>)
           in case treats db of
                None \<Rightarrow> (Panic NilMapAssignment, db, h')
              | Some m \<Rightarrow>
                  (Ok newid, db\<lparr>treats := Some (m(newid \<mapsto> a)), nextID := nextID db + 1\<rparr>, h')))"

text \<open>
  \<^verbatim>\<open>DeleteTreat\<close> rejects the empty id before taking the lock, then looks the id up
  and deletes it.
\<close>

definition memoryDB_DeleteTreat :: "memoryDB \<Rightarrow> heap \<Rightarrow> string \<Rightarrow> unit outcome \<times> memoryDB \<times> heap" where
  "memoryDB_DeleteTreat db h i =
     (if i = [] then (Err MemDeleteUnassigned, db, h)
      else case treats db of
             None \<Rightarrow> (Err (MemDeleteNotExist i), db, h)
           | Some m \<Rightarrow>
               (case m i of
                  None \<Rightarrow> (Err (MemDeleteNotExist i), db, h)
                | Some _ \<Rightarrow> (Ok (), db\<lparr>treats := Some (m(i := None))\<rparr>, h)))"

text \<open>
  \<^verbatim>\<open>UpdateTreat\<close> rejects the empty id (reading it panics on a nil pointer), then
  assigns the pointer to the map entry of its id without looking the id up.
\<close>

definition memoryDB_UpdateTreat :: "memoryDB \<Rightarrow> heap \<Rightarrow> ptr \<Rightarrow> unit outcome \<times> memoryDB \<times> heap" where
  "memoryDB_UpdateTreat db h t =
     (case t of
        None \<Rightarrow> (Panic NilDereference, db, h)
      | Some a \<Rightarrow>
          if ID (h a) = [] then (Err MemUpdateUnassigned, db, h)
          else case treats db of
                 None \<Rightarrow> (Panic NilMapAssignment, db, h)
               | Some m \<Rightarrow> (Ok (), db\<lparr>treats := Some (m(ID (h a) \<mapsto> a))\<rparr>, h))"

text \<open>
  \<^verbatim>\<open>ListTreats\<close> appends every value of the map to a slice, in the order \<open>kvs\<close> the
  runtime enumerates the map (nothing for a nil map), sorts the slice by
  \<^verbatim>\<open>treats[i].Title < treats[j].Title\<close> (Go compares strings byte by byte) and returns it
  with a nil error.
\<close>

definition title_less :: "heap \<Rightarrow> addr \<Rightarrow> addr \<Rightarrow> bool" where
  "title_less h a b \<longleftrightarrow> Title (h a) < Title (h b)"

definition memoryDB_ListTreats ::
  "memoryDB \<Rightarrow> heap \<Rightarrow> (string \<times> addr) list \<Rightarrow> addr list outcome \<times> memoryDB \<times> heap" where
  "memoryDB_ListTreats db h kvs =
     (case treats db of
        None \<Rightarrow> (Ok [], db, h)
      | Some m \<Rightarrow> (Ok (sort_Slice (title_less h) (map snd kvs)), db, h))"

text \<open>
  A caller's view of the store: one call of a method, and a sequence of calls. A panic
  unwinds through the deferred \<^verbatim>\<open>Unlock\<close>, so the store stays usable by a caller that
  recovers (as the HTTP server does for each request), and a run goes on after it.
\<close>

datatype call =
    CallClose
  | CallGetTreat string
  | CallAddTreat ptr
  | CallDeleteTreat string
  | CallUpdateTreat ptr
  | CallListTreats "(string \<times> addr) list"

datatype retval = RNone | RId string | RTreat ptr | RTreats "addr list"

definition returning ::
  "('a \<Rightarrow> retval) \<Rightarrow> 'a outcome \<times> memoryDB \<times> heap \<Rightarrow> retval outcome \<times> memoryDB \<times> heap" where
  "returning f r = (map_outcome f (fst r), snd r)"

fun step :: "call \<Rightarrow> memoryDB \<Rightarrow> heap \<Rightarrow> retval outcome \<times> memoryDB \<times> heap" where
  "step CallClose db h = returning (\<lambda>_. RNone) (memoryDB_Close db h)"
| "step (CallGetTreat i) db h = returning RTreat (memoryDB_GetTreat db h i)"
| "step (CallAddTreat t) db h = returning RId (memoryDB_AddTreat db h t)"
| "step (CallDeleteTreat i) db h = returning (\<lambda>_. RNone) (memoryDB_DeleteTreat db h i)"
| "step (CallUpdateTreat t) db h = returning (\<lambda>_. RNone) (memoryDB_UpdateTreat db h t)"
| "step (CallListTreats kvs) db h = returning RTreats (memoryDB_ListTreats db h kvs)"

fun run :: "call list \<Rightarrow> memoryDB \<Rightarrow> heap \<Rightarrow> retval outcome list \<times> memoryDB \<times> heap" where
  "run [] db h = ([], db, h)"
| "run (c # cs) db h =
     (case step c db h of
        (r, db', h') \<Rightarrow> (case run cs db' h' of (rs, db'', h'') \<Rightarrow> (r # rs, db'', h'')))"

text \<open>The ids that the \<^verbatim>\<open>AddTreat\<close> calls of a run returned, in order.\<close>

fun added_ids :: "retval outcome list \<Rightarrow> string list" where
  "added_ids [] = []"
| "added_ids (Ok (RId i) # rs) = i # added_ids rs"
| "added_ids (_ # rs) = added_ids rs"

fun is_AddTreat :: "call \<Rightarrow> bool" where
  "is_AddTreat (CallAddTreat _) = True"
| "is_AddTreat _ = False"

text \<open>
  The number an id denotes, to compare ids as the numbers they print: the digits are
  read in base ten, after an optional minus sign.
\<close>

definition digit_val :: "char \<Rightarrow> nat" where
  "digit_val c = of_char c - 48"

definition undec :: "string \<Rightarrow> nat" where
  "undec s = foldl (\<lambda>n c. 10 * n + digit_val c) 0 s"

fun id_num :: "string \<Rightarrow> int" where
  "id_num [] = 0"
| "id_num (c # cs) = (if c = CHR ''-'' then - int (undec cs) else int (undec (c # cs)))"

text \<open>
  The store's invariant of the specification: every stored record has a non-empty id,
  which is the key it is stored under.
\<close>

definition store_inv :: "memoryDB \<Rightarrow> heap \<Rightarrow> bool" where
  "store_inv db h \<longleftrightarrow>
     (case treats db of
        None \<Rightarrow> True
      | Some m \<Rightarrow> (\<forall>k a. m k = Some a \<longrightarrow> k \<noteq> [] \<and> ID (h a) = k))"

text \<open>
  A call hands the store a fresh record when it is not an \<^verbatim>\<open>AddTreat\<close> of a pointer
  that the map already holds.
\<close>

fun fresh_record :: "call \<Rightarrow> memoryDB \<Rightarrow> bool" where
  "fresh_record (CallAddTreat (Some a)) db =
     (case treats db of None \<Rightarrow> True | Some m \<Rightarrow> a \<notin> ran m)"
| "fresh_record _ db = True"

inductive reachable_fresh :: "memoryDB \<Rightarrow> heap \<Rightarrow> bool" where
  initial: "reachable_fresh newMemoryDB h"
| after_call: "reachable_fresh db h \<Longrightarrow> fresh_record c db \<Longrightarrow> step c db h = (r, db', h')
     \<Longrightarrow> reachable_fresh db' h'"

text \<open>The results, the store and the heap at the end of a run.\<close>

definition results_of :: "call list \<Rightarrow> memoryDB \<Rightarrow> heap \<Rightarrow> retval outcome list" where
  "results_of cs db h = fst (run cs db h)"

definition db_after :: "call list \<Rightarrow> memoryDB \<Rightarrow> heap \<Rightarrow> memoryDB" where
  "db_after cs db h = fst (snd (run cs db h))"

definition heap_after :: "call list \<Rightarrow> memoryDB \<Rightarrow> heap \<Rightarrow> heap" where
  "heap_after cs db h = snd (snd (run cs db h))"

text \<open>
  An id is present when the two-valued map read finds it; the stored records are the
  values of the map, one for each key; an enumeration fits a store when it is a
  possible \<^verbatim>\<open>range\<close> over its map (anything fits the nil map, which yields no entry).
\<close>

definition present :: "memoryDB \<Rightarrow> string \<Rightarrow> bool" where
  "present db i \<longleftrightarrow> (case treats db of None \<Rightarrow> False | Some m \<Rightarrow> m i \<noteq> None)"

definition stored :: "memoryDB \<Rightarrow> addr multiset" where
  "stored db =
     (case treats db of
        None \<Rightarrow> {#}
      | Some m \<Rightarrow> image_mset (\<lambda>k. the (m k)) (mset_set (dom m)))"

definition enumerates :: "(string \<times> addr) list \<Rightarrow> memoryDB \<Rightarrow> bool" where
  "enumerates kvs db \<longleftrightarrow> (case treats db of None \<Rightarrow> True | Some m \<Rightarrow> range_of m kvs)"

text \<open>Concrete heaps and stores for the scenarios of the specification.\<close>

definition zero_Treat :: Treat where
  "zero_Treat = \<lparr>ID = [], Title = [], Author = [], PublishedDate = [], ImageURL = [],
     Description = []\<rparr>"

definition heap0 :: heap where
  "heap0 = (\<lambda>_. zero_Treat)"

definition heap_ZA :: heap where
  "heap_ZA = (\<lambda>_. zero_Treat)
     (0 := zero_Treat\<lparr>ID := ''1'', Title := ''Zeta''\<rparr>,
      1 := zero_Treat\<lparr>ID := ''2'', Title := ''Alpha''\<rparr>)"

definition db_ZA :: memoryDB where
  "db_ZA = \<lparr>nextID = 3, treats = Some [''1'' \<mapsto> 0, ''2'' \<mapsto> 1]\<rparr>"

definition heap_7 :: heap where
  "heap_7 = (\<lambda>_. zero_Treat)(0 := zero_Treat\<lparr>ID := ''7'', Title := ''Scone''\<rparr>)"

section \<open>The Firestore adapter\<close>

text \<open>
  \<^verbatim>\<open>firestoreDB\<close> forwards each method to the Firestore client library, which is not
  part of the repository. The client is a parameter of the model: what a document
  fetch, a decoding of a snapshot and a document write return, over a remote state
  \<open>'s\<close> and snapshots \<open>'d\<close>. \<^verbatim>\<open>DataTo\<close> fills the struct it is given and reports an
  error when a stored field does not fit the struct; what it filled in before the
  error stays.
\<close>

record ('s, 'd) firestore_client =
  doc_Get :: "string \<Rightarrow> 's \<Rightarrow> cause + 'd"
  snapshot_DataTo :: "'d \<Rightarrow> Treat \<Rightarrow> cause option \<times> Treat"
  doc_Set :: "string \<Rightarrow> Treat \<Rightarrow> 's \<Rightarrow> cause option \<times> 's"

text \<open>
  \<^verbatim>\<open>GetTreat\<close> fetches the document, returns the wrapped error of a failed fetch, and
  otherwise decodes the snapshot into a new struct; the value \<^verbatim>\<open>DataTo\<close> returns is
  dropped and the struct is returned with a nil error.
\<close>

definition firestoreDB_GetTreat ::
  "('s, 'd) firestore_client \<Rightarrow> 's \<Rightarrow> string \<Rightarrow> Treat outcome" where
  "firestoreDB_GetTreat cl s i =
     (case doc_Get cl i s of
        Inl e \<Rightarrow> Err (FsGetError e)
      | Inr ds \<Rightarrow> Ok (snd (snapshot_DataTo cl ds zero_Treat)))"

text \<open>
  \<^verbatim>\<open>UpdateTreat\<close> writes the struct to the document named by its id (reading the id
  panics on a nil pointer) and wraps the error of a failed write. The struct is given
  by value here: the adapter keeps no pointer. Unlike the in-memory store it does not
  look at the id first: what it returns for an empty id is what the client's write to
  the document with the empty id returns, which the repository does not determine.
\<close>

definition firestoreDB_UpdateTreat ::
  "('s, 'd) firestore_client \<Rightarrow> 's \<Rightarrow> Treat option \<Rightarrow> unit outcome \<times> 's" where
  "firestoreDB_UpdateTreat cl s t =
     (case t of
        None \<Rightarrow> (Panic NilDereference, s)
      | Some tv \<Rightarrow>
          (case doc_Set cl (ID tv) tv s of
             (Some e, s') \<Rightarrow> (Err (FsSetError e), s')
           | (None, s') \<Rightarrow> (Ok (), s')))"

text \<open>
  A client to run the adapter on. Its remote state is the collection, a map from
  document id to the stored struct. It fetches a document one of whose fields does not
  fit the struct, so that decoding stops with an error after the fields before it.
\<close>

definition mistyped_client :: "(string \<rightharpoonup> Treat, Treat) firestore_client" where
  "mistyped_client =
     \<lparr>doc_Get = (\<lambda>i s. case s i of None \<Rightarrow> Inl ''NotFound'' | Some d \<Rightarrow> Inr d),
      snapshot_DataTo = (\<lambda>d t. (Some ''cannot set type string to int'', t\<lparr>Author := Author d\<rparr>)),
      doc_Set = (\<lambda>i t s. (None, s(i \<mapsto> t)))\<rparr>"

section \<open>Facts about the library routines\<close>

lemmas store_defs = returning_def memoryDB_Close_def memoryDB_GetTreat_def memoryDB_AddTreat_def
  memoryDB_DeleteTreat_def memoryDB_UpdateTreat_def memoryDB_ListTreats_def Let_def

subsection \<open>Decimal strings\<close>

lemma digit_val_digit_char: "d < 10 \<Longrightarrow> digit_val (digit_char d) = d"
proof -
  assume "d < 10"
  then have "d = 0 \<or> d = 1 \<or> d = 2 \<or> d = 3 \<or> d = 4 \<or> d = 5 \<or> d = 6 \<or> d = 7 \<or> d = 8 \<or> d = 9"
    by arith
  then show ?thesis
    by (auto simp: digit_val_def digit_char_def)
qed

lemma digit_char_not_minus: "d < 10 \<Longrightarrow> digit_char d \<noteq> CHR ''-''"
proof -
  assume "d < 10"
  then have "d = 0 \<or> d = 1 \<or> d = 2 \<or> d = 3 \<or> d = 4 \<or> d = 5 \<or> d = 6 \<or> d = 7 \<or> d = 8 \<or> d = 9"
    by arith
  then show ?thesis
    by (auto simp: digit_char_def)
qed

lemma undec_snoc: "undec (s @ [c]) = 10 * undec s + digit_val c"
  by (simp add: undec_def)

lemma undec_dec: "undec (dec n) = n"
proof (induction n rule: dec.induct)
  case (1 n)
  show ?case
  proof (cases "n < 10")
    case True
    then show ?thesis
      by (simp add: dec.simps [of n] undec_def digit_val_digit_char)
  next
    case False
    with "1" have "undec (dec (n div 10)) = n div 10" by simp
    with False show ?thesis
      by (simp add: dec.simps [of n] undec_snoc digit_val_digit_char)
  qed
qed

lemma dec_head: "\<exists>c cs. dec n = c # cs \<and> c \<noteq> CHR ''-''"
proof (induction n rule: dec.induct)
  case (1 n)
  show ?case
  proof (cases "n < 10")
    case True
    then show ?thesis
      by (simp add: dec.simps [of n] digit_char_not_minus)
  next
    case False
    with "1" obtain c cs where "dec (n div 10) = c # cs" "c \<noteq> CHR ''-''" by blast
    with False show ?thesis
      by (simp add: dec.simps [of n])
  qed
qed

lemma dec_not_Nil: "dec n \<noteq> []"
  using dec_head [of n] by auto

lemma FormatInt_not_Nil: "FormatInt w \<noteq> []"
  by (simp add: FormatInt_def dec_not_Nil)

lemma id_num_dec: "id_num (dec n) = int n"
proof -
  from dec_head [of n] obtain c cs where e: "dec n = c # cs" and c: "c \<noteq> CHR ''-''" by blast
  have "id_num (c # cs) = int (undec (c # cs))" using c by simp
  then show ?thesis using undec_dec [of n] e by simp
qed

lemma id_num_FormatInt: "id_num (FormatInt w) = sint w"
proof (cases "sint w < 0")
  case True
  then show ?thesis by (simp add: FormatInt_def undec_dec)
next
  case False
  then show ?thesis by (simp add: FormatInt_def id_num_dec)
qed

lemma sint_of_nat_small:
  assumes "k < 2 ^ 63"
  shows "sint (of_nat k :: 64 word) = int k"
proof -
  have "signed_take_bit 63 (int k) = int k"
  proof (rule signed_take_bit_int_eq_self)
    show "- (2 ^ 63) \<le> int k" by simp
    from assms have "int k < int (2 ^ 63)" by (simp only: of_nat_less_iff)
    then show "int k < 2 ^ 63" by simp
  qed
  then show ?thesis
    by (simp add: signed_of_nat)
qed

lemma FormatInt_of_nat: "k < 2 ^ 63 \<Longrightarrow> FormatInt (of_nat k) = dec k"
  by (simp add: FormatInt_def sint_of_nat_small)

lemma upt_shift: "map (\<lambda>k. f (Suc k)) [0..<n] = map f [1..<Suc n]"
proof -
  have "map (\<lambda>k. f (Suc k)) [0..<n] = map f (map Suc [0..<n])" by simp
  then show ?thesis by (simp only: map_Suc_upt One_nat_def)
qed

lemma FormatInt_from_one:
  assumes "n < 2 ^ 63"
  shows "map (\<lambda>k. FormatInt (1 + of_nat k)) [0..<n] = map dec [1..<Suc n]"
proof -
  have "map (\<lambda>k. FormatInt (1 + of_nat k)) [0..<n] = map (\<lambda>k. dec (Suc k)) [0..<n]"
  proof (rule map_cong [OF refl])
    fix k assume "k \<in> set [0..<n]"
    with assms have "Suc k < 2 ^ 63" by simp
    then have "FormatInt (of_nat (Suc k)) = dec (Suc k)" by (rule FormatInt_of_nat)
    then show "FormatInt (1 + of_nat k) = dec (Suc k)" by simp
  qed
  then show ?thesis by (simp only: upt_shift)
qed

lemma id_num_decs: "map id_num (map dec ks) = map int ks"
  by (simp add: id_num_dec)

lemma increasing_decs: "sorted_wrt (<) (map id_num (map dec [m..<n]))"
  by (simp only: id_num_decs) (simp add: sorted_wrt_map)

lemma distinct_decs: "distinct (map dec [m..<n])"
proof -
  have "inj dec" by (rule inj_on_inverseI [where g = undec]) (rule undec_dec)
  then show ?thesis by (simp add: distinct_map inj_on_def)
qed

subsection \<open>Insertion sort and map enumeration\<close>

lemma mset_insert_by: "mset (insert_by lt x ys) = add_mset x (mset ys)"
  by (induction ys) auto

lemma mset_foldl_insert_by:
  "mset (foldl (\<lambda>acc x. insert_by lt x acc) acc xs) = mset acc + mset xs"
  by (induction xs arbitrary: acc) (auto simp: mset_insert_by)

lemma mset_sort_Slice: "mset (sort_Slice lt xs) = mset xs"
  by (simp add: sort_Slice_def mset_foldl_insert_by)

lemma set_insert_by: "set (insert_by lt x ys) = insert x (set ys)"
  by (induction ys) auto

lemma sorted_insert_by:
  fixes f :: "'a \<Rightarrow> 'b::linorder"
  shows "sorted (map f ys) \<Longrightarrow> sorted (map f (insert_by (\<lambda>a b. f a < f b) x ys))"
  by (induction ys) (auto simp: set_insert_by)

lemma sorted_foldl_insert_by:
  fixes f :: "'a \<Rightarrow> 'b::linorder"
  shows "sorted (map f acc) \<Longrightarrow> sorted (map f (foldl (\<lambda>acc x. insert_by (\<lambda>a b. f a < f b) x acc) acc xs))"
  by (induction xs arbitrary: acc) (auto simp: sorted_insert_by)

lemma sorted_sort_Slice:
  fixes f :: "'a \<Rightarrow> 'b::linorder"
  shows "sorted (map f (sort_Slice (\<lambda>a b. f a < f b) xs))"
  by (simp add: sort_Slice_def sorted_foldl_insert_by)

lemma title_less_eq: "title_less h = (\<lambda>a b. Title (h a) < Title (h b))"
  by (simp add: title_less_def fun_eq_iff)

lemma map_the_map_of:
  "distinct (map fst kvs) \<Longrightarrow> map (\<lambda>k. the (map_of kvs k)) (map fst kvs) = map snd kvs"
  by (induction kvs) (auto simp: rev_image_eqI)

lemma map_of_values:
  assumes d: "distinct (map fst kvs)"
  shows "image_mset (\<lambda>k. the (map_of kvs k)) (mset_set (dom (map_of kvs))) = mset (map snd kvs)"
proof -
  have "mset_set (dom (map_of kvs)) = mset (map fst kvs)"
    using mset_set_set [OF d] by (simp only: dom_map_of_conv_image_fst set_map)
  then have "image_mset (\<lambda>k. the (map_of kvs k)) (mset_set (dom (map_of kvs)))
      = mset (map (\<lambda>k. the (map_of kvs k)) (map fst kvs))"
    by (simp only: mset_map)
  then show ?thesis
    by (simp only: map_the_map_of [OF d])
qed

lemma range_of_values:
  "range_of m kvs \<Longrightarrow> mset (map snd kvs) = image_mset (\<lambda>k. the (m k)) (mset_set (dom m))"
  using map_of_values [of kvs] by (auto simp: range_of_def)

section \<open>The in-memory store: results\<close>

subsection \<open>The id counter along a run\<close>

lemma step_counter:
  assumes "step c db h = (r, db', h')"
  shows "(r = Ok (RId (FormatInt (nextID db))) \<and> nextID db' = nextID db + 1 \<and> is_AddTreat c)
       \<or> ((\<forall>i. r \<noteq> Ok (RId i)) \<and> nextID db' = nextID db)"
  using assms by (cases c) (auto simp: store_defs split: option.splits if_splits)

lemma added_ids_other: "(\<forall>i. r \<noteq> Ok (RId i)) \<Longrightarrow> added_ids (r # rs) = added_ids rs"
proof (cases r)
  case (Ok v)
  assume "\<forall>i. r \<noteq> Ok (RId i)"
  with Ok show ?thesis by (cases v) auto
qed auto

lemma run_counter:
  "run cs db h = (rs, db', h') \<Longrightarrow>
     added_ids rs = map (\<lambda>k. FormatInt (nextID db + of_nat k)) [0..<length (added_ids rs)] \<and>
     nextID db' = nextID db + of_nat (length (added_ids rs)) \<and>
     length (added_ids rs) \<le> length (filter is_AddTreat cs)"
proof (induction cs arbitrary: db h rs db' h')
  case Nil
  then show ?case by simp
next
  case (Cons c cs)
  obtain r db1 h1 where s: "step c db h = (r, db1, h1)" by (cases "step c db h") auto
  obtain rs1 db2 h2 where t: "run cs db1 h1 = (rs1, db2, h2)" by (cases "run cs db1 h1") auto
  from Cons.prems s t have e: "rs = r # rs1" "db' = db2" by auto
  let ?n = "length (added_ids rs1)"
  from Cons.IH [OF t]
  have ih1: "added_ids rs1 = map (\<lambda>k. FormatInt (nextID db1 + of_nat k)) [0..<?n]"
    and ih2: "nextID db2 = nextID db1 + of_nat ?n"
    and ih3: "?n \<le> length (filter is_AddTreat cs)" by blast+
  from step_counter [OF s] show ?case
  proof
    assume a: "r = Ok (RId (FormatInt (nextID db))) \<and> nextID db1 = nextID db + 1 \<and> is_AddTreat c"
    then have l: "added_ids rs = FormatInt (nextID db) # added_ids rs1" using e by simp
    have "map (\<lambda>k. FormatInt (nextID db + of_nat k)) [0..<Suc ?n]
        = FormatInt (nextID db) # map (\<lambda>k. FormatInt (nextID db + of_nat (Suc k))) [0..<?n]"
      by (simp only: map_upt_Suc) simp
    also have "\<dots> = FormatInt (nextID db) # map (\<lambda>k. FormatInt (nextID db1 + of_nat k)) [0..<?n]"
      using a by (simp add: add.assoc)
    also have "\<dots> = added_ids rs" using l ih1 by simp
    finally have 1: "added_ids rs = map (\<lambda>k. FormatInt (nextID db + of_nat k)) [0..<length (added_ids rs)]"
      using l by simp
    have 2: "nextID db' = nextID db + of_nat (length (added_ids rs))"
      using a e ih2 l by (simp add: add.assoc)
    have 3: "length (added_ids rs) \<le> length (filter is_AddTreat (c # cs))"
      using a l ih3 by simp
    from 1 2 3 show ?thesis by blast
  next
    assume a: "(\<forall>i. r \<noteq> Ok (RId i)) \<and> nextID db1 = nextID db"
    then have l: "added_ids rs = added_ids rs1" using e added_ids_other by simp
    from a l ih1 ih2 ih3 e show ?thesis by simp
  qed
qed

lemma run_adds_from:
  "treats db \<noteq> None \<Longrightarrow> nextID db = c \<Longrightarrow>
   results_of (replicate n (CallAddTreat (Some a))) db h
     = map (\<lambda>k. Ok (RId (FormatInt (c + of_nat k)))) [0..<n]"
proof (induction n arbitrary: db h c)
  case 0
  then show ?case by (simp add: results_of_def)
next
  case (Suc n)
  from Suc.prems obtain m where m: "treats db = Some m" by auto
  obtain db1 h1 where s: "step (CallAddTreat (Some a)) db h = (Ok (RId (FormatInt c)), db1, h1)"
    and t: "treats db1 \<noteq> None" and u: "nextID db1 = c + 1"
    using m Suc.prems(2) by (simp add: returning_def memoryDB_AddTreat_def Let_def)
  from Suc.IH [OF t u, of h1]
  have ih: "results_of (replicate n (CallAddTreat (Some a))) db1 h1
      = map (\<lambda>k. Ok (RId (FormatInt (c + 1 + of_nat k)))) [0..<n]" .
  have "results_of (replicate (Suc n) (CallAddTreat (Some a))) db h
      = Ok (RId (FormatInt c)) # results_of (replicate n (CallAddTreat (Some a))) db1 h1"
    using s by (simp add: results_of_def split_beta)
  also have "\<dots> = map (\<lambda>k. Ok (RId (FormatInt (c + of_nat k)))) [0..<Suc n]"
    by (simp only: ih map_upt_Suc) (simp add: add.assoc)
  finally show ?case .
qed

lemma run_adds:
  "treats db \<noteq> None \<Longrightarrow>
   results_of (replicate n (CallAddTreat (Some a))) db h
     = map (\<lambda>k. Ok (RId (FormatInt (nextID db + of_nat k)))) [0..<n]"
  by (rule run_adds_from) simp_all

lemma added_ids_map: "added_ids (map (\<lambda>k. Ok (RId (f k))) ks) = map f ks"
  by (induction ks) auto

lemma counter_wraps:
  assumes N: "N = 2 ^ 63"
  shows "\<not> sorted_wrt (<) (map id_num (added_ids
           (results_of (replicate N (CallAddTreat (Some 0))) newMemoryDB heap0)))"
proof
  let ?f = "\<lambda>k. sint (1 + of_nat k :: 64 word)"
  assume "sorted_wrt (<) (map id_num (added_ids
           (results_of (replicate N (CallAddTreat (Some 0))) newMemoryDB heap0)))"
  then have s: "sorted_wrt (<) (map ?f [0..<N])"
    by (simp add: run_adds newMemoryDB_def added_ids_map id_num_FormatInt comp_def)
  have i: "N - 2 < N - 1" and j: "N - 1 < length (map ?f [0..<N])" using N by simp_all
  from sorted_wrt_nth_less [OF s i j] have "?f (N - 2) < ?f (N - 1)"
    using N by (simp only: nth_map length_map length_upt nth_upt) simp
  then show False using N by simp
qed

subsection \<open>The invariant along a run\<close>

lemma AddTreat_store_inv:
  assumes inv: "store_inv db h"
    and fr: "fresh_record (CallAddTreat (Some a)) db"
    and s: "memoryDB_AddTreat db h (Some a) = (r, db', h')"
  shows "store_inv db' h'"
proof (cases "treats db")
  case None
  with s show ?thesis by (auto simp: store_defs store_inv_def)
next
  case (Some m)
  with fr have nr: "a \<notin> ran m" by simp
  from s Some
  have d: "treats db' = Some (m(FormatInt (nextID db) \<mapsto> a))"
    and e: "h' = h(a := (h a)\<lparr>ID := FormatInt (nextID db)\<rparr>)"
    by (auto simp: store_defs)
  from inv Some have i: "\<And>k b. m k = Some b \<Longrightarrow> k \<noteq> [] \<and> ID (h b) = k"
    by (simp add: store_inv_def)
  show ?thesis
    unfolding store_inv_def d e
    using i nr by (auto simp: FormatInt_not_Nil ran_def)
qed

lemma step_store_inv:
  assumes inv: "store_inv db h" and fr: "fresh_record c db" and s: "step c db h = (r, db', h')"
  shows "store_inv db' h'"
proof (cases c)
  case CallClose
  with s show ?thesis by (auto simp: store_defs store_inv_def)
next
  case (CallGetTreat i)
  with s inv show ?thesis by (auto simp: store_defs split: option.splits)
next
  case (CallAddTreat t)
  show ?thesis
  proof (cases t)
    case None
    with CallAddTreat s inv show ?thesis by (auto simp: store_defs)
  next
    case (Some a)
    with CallAddTreat s
    have "memoryDB_AddTreat db h (Some a) = (fst (memoryDB_AddTreat db h (Some a)), db', h')"
      by (cases "memoryDB_AddTreat db h (Some a)") (auto simp: returning_def)
    with inv fr CallAddTreat Some show ?thesis
      using AddTreat_store_inv by blast
  qed
next
  case (CallDeleteTreat i)
  with s inv show ?thesis
    by (fastforce simp: store_defs store_inv_def split: option.splits if_splits)
next
  case (CallUpdateTreat t)
  with s inv show ?thesis
    by (fastforce simp: store_defs store_inv_def split: option.splits if_splits)
next
  case (CallListTreats kvs)
  with s inv show ?thesis by (auto simp: store_defs split: option.splits)
qed

lemma reachable_store_inv: "reachable_fresh db h \<Longrightarrow> store_inv db h"
proof (induction rule: reachable_fresh.induct)
  case (initial h)
  show ?case by (simp add: store_inv_def newMemoryDB_def)
next
  case (after_call db h c r db' h')
  then show ?case using step_store_inv by blast
qed

subsection \<open>The scenario of the specification\<close>

text \<open>
  Adding a treat titled Zeta and then one titled Alpha to a new store gives them the ids
  1 and 2 and leaves the store and heap used in the instances below.
\<close>

lemma run_ZA: "run [CallAddTreat (Some 0), CallAddTreat (Some 1)] newMemoryDB
   ((\<lambda>_. zero_Treat)(0 := zero_Treat\<lparr>Title := ''Zeta''\<rparr>, 1 := zero_Treat\<lparr>Title := ''Alpha''\<rparr>))
   = ([Ok (RId ''1''), Ok (RId ''2'')], db_ZA, heap_ZA)"
  by (auto simp: newMemoryDB_def returning_def memoryDB_AddTreat_def Let_def FormatInt_def dec.simps
      digit_char_def db_ZA_def heap_ZA_def fun_eq_iff zero_Treat_def)

lemma enum_ZA: "enumerates [(''1'', 0), (''2'', 1)] db_ZA"
  by (auto simp: enumerates_def db_ZA_def range_of_def)

section \<open>The claims of the specification\<close>

text \<open>
  C1. The specification has \<^verbatim>\<open>UpdateTreat\<close> of the in-memory store fail with a
  not-found error on a record whose non-empty id is not in the store. The store does
  otherwise. On an open store, \<^verbatim>\<open>UpdateTreat\<close> of a record whose non-empty id is not
  present returns no error and stores the record under that id, where \<^verbatim>\<open>GetTreat\<close>
  then finds it.
\<close>

theorem Update_missing_upserts:
  assumes "treats db = Some m" and "ID (h a) \<noteq> []" and "\<not> present db (ID (h a))"
  shows "memoryDB_UpdateTreat db h (Some a) = (Ok (), db\<lparr>treats := Some (m(ID (h a) \<mapsto> a))\<rparr>, h) \<and>
     memoryDB_GetTreat (db\<lparr>treats := Some (m(ID (h a) \<mapsto> a))\<rparr>) h (ID (h a))
       = (Ok (Some a), db\<lparr>treats := Some (m(ID (h a) \<mapsto> a))\<rparr>, h)"
  using assms by (simp add: memoryDB_UpdateTreat_def memoryDB_GetTreat_def)

text \<open>
  An instance: updating the record with id 7 on a new store.
\<close>

theorem Update_missing_upserts_witness:
  "treats newMemoryDB = Some Map.empty \<and> ID (heap_7 0) \<noteq> [] \<and>
   \<not> present newMemoryDB (ID (heap_7 0)) \<and>
   memoryDB_GetTreat (newMemoryDB\<lparr>treats := Some [ID (heap_7 0) \<mapsto> 0]\<rparr>) heap_7 (ID (heap_7 0))
     = (Ok (Some 0), newMemoryDB\<lparr>treats := Some [ID (heap_7 0) \<mapsto> 0]\<rparr>, heap_7)"
proof -
  have a: "treats newMemoryDB = Some Map.empty" by (simp add: newMemoryDB_def)
  have b: "ID (heap_7 0) \<noteq> []" by (simp add: heap_7_def)
  have c: "\<not> present newMemoryDB (ID (heap_7 0))" by (simp add: present_def newMemoryDB_def)
  from Update_missing_upserts [of newMemoryDB Map.empty heap_7 0, OF a b c] a b c
  show ?thesis by blast
qed

text \<open>
  The claim as the specification states it fails on a new store: the record with id 7,
  which is not present, is stored by \<^verbatim>\<open>UpdateTreat\<close>, and no error is returned.
\<close>

theorem Update_missing_counterexample:
  "ID (heap_7 0) \<noteq> [] \<and> \<not> present newMemoryDB (ID (heap_7 0)) \<and>
   memoryDB_UpdateTreat newMemoryDB heap_7 (Some 0)
     = (Ok (), \<lparr>nextID = 1, treats = Some [''7'' \<mapsto> 0]\<rparr>, heap_7)"
  by (simp add: heap_7_def zero_Treat_def present_def newMemoryDB_def memoryDB_UpdateTreat_def)

text \<open>
  C2. The ids that \<^verbatim>\<open>AddTreat\<close> assigns. Every \<^verbatim>\<open>AddTreat\<close> that returns gives the
  formatted current counter and increments the counter. In a run of any calls on a new
  store that holds fewer than \<open>2\<^sup>6\<^sup>3\<close> \<^verbatim>\<open>AddTreat\<close> calls, the ids returned are the
  decimal strings of 1, 2, 3, ... in this order: they increase strictly as numbers and
  none is returned twice, whatever was deleted in between. The bound is needed because
  the counter is an \<^verbatim>\<open>int64\<close>.
\<close>

theorem AddTreat_ids:
  assumes "run cs newMemoryDB h = (rs, db', h')"
    and "length (filter is_AddTreat cs) < 2 ^ 63"
  shows "added_ids rs = map dec [1..<Suc (length (added_ids rs))] \<and>
         sorted_wrt (<) (map id_num (added_ids rs)) \<and>
         distinct (added_ids rs) \<and>
         nextID db' = 1 + of_nat (length (added_ids rs)) \<and>
         (\<forall>db h t i db1 h1. memoryDB_AddTreat db h t = (Ok i, db1, h1) \<longrightarrow>
            i = FormatInt (nextID db) \<and> nextID db1 = nextID db + 1)"
proof -
  let ?n = "length (added_ids rs)"
  from run_counter [OF assms(1)]
  have a: "added_ids rs = map (\<lambda>k. FormatInt (1 + of_nat k)) [0..<?n]"
    and b: "nextID db' = 1 + of_nat ?n"
    and c: "?n \<le> length (filter is_AddTreat cs)"
    by (simp_all add: newMemoryDB_def)
  from c assms(2) have "?n < 2 ^ 63" by simp
  then have d: "map (\<lambda>k. FormatInt (1 + of_nat k)) [0..<?n] = map dec [1..<Suc ?n]"
    by (rule FormatInt_from_one)
  from a d have e: "added_ids rs = map dec [1..<Suc ?n]" by (rule trans)
  have f: "sorted_wrt (<) (map id_num (added_ids rs))"
    using increasing_decs [of 1 "Suc ?n"] by (simp only: e [symmetric])
  have g: "distinct (added_ids rs)"
    using distinct_decs [of 1 "Suc ?n"] by (simp only: e [symmetric])
  have p: "\<forall>db h t i db1 h1. memoryDB_AddTreat db h t = (Ok i, db1, h1) \<longrightarrow>
            i = FormatInt (nextID db) \<and> nextID db1 = nextID db + 1"
    by (auto simp: memoryDB_AddTreat_def Let_def split: option.splits)
  from e f g b p show ?thesis by blast
qed

text \<open>
  An instance: add, delete the record just added, add again. The second id is 2.
\<close>

theorem AddTreat_ids_witness:
  "run [CallAddTreat (Some 0), CallDeleteTreat ''1'', CallAddTreat (Some 1)] newMemoryDB heap0
     = ([Ok (RId ''1''), Ok RNone, Ok (RId ''2'')],
        \<lparr>nextID = 3, treats = Some [''2'' \<mapsto> 1]\<rparr>,
        heap0(0 := zero_Treat\<lparr>ID := ''1''\<rparr>, 1 := zero_Treat\<lparr>ID := ''2''\<rparr>)) \<and>
   sorted_wrt (<) (map id_num [''1'', ''2''])"
proof -
  have r: "run [CallAddTreat (Some 0), CallDeleteTreat ''1'', CallAddTreat (Some 1)] newMemoryDB heap0
     = ([Ok (RId ''1''), Ok RNone, Ok (RId ''2'')],
        \<lparr>nextID = 3, treats = Some [''2'' \<mapsto> 1]\<rparr>,
        heap0(0 := zero_Treat\<lparr>ID := ''1''\<rparr>, 1 := zero_Treat\<lparr>ID := ''2''\<rparr>))"
    by (auto simp: newMemoryDB_def returning_def memoryDB_AddTreat_def memoryDB_DeleteTreat_def
        Let_def FormatInt_def dec.simps digit_char_def heap0_def fun_eq_iff)
  have l: "length (filter is_AddTreat
      [CallAddTreat (Some 0), CallDeleteTreat ''1'', CallAddTreat (Some 1)]) < 2 ^ 63"
    by simp
  from AddTreat_ids [OF r l]
  have "sorted_wrt (<) (map id_num (added_ids [Ok (RId ''1''), Ok RNone, Ok (RId ''2'')]))"
    by blast
  then have "sorted_wrt (<) (map id_num [''1'', ''2''])" by (simp only: added_ids.simps)
  with r show ?thesis by (rule conjI)
qed

text \<open>
  Without the bound the claim fails: of \<open>2\<^sup>6\<^sup>3\<close> calls of \<^verbatim>\<open>AddTreat\<close> on a new store,
  the last but one returns 9223372036854775807 and the last returns
  -9223372036854775808, since the increment wraps around.
\<close>

theorem ids_wrap_counterexample:
  "\<not> sorted_wrt (<) (map id_num (added_ids
      (results_of (replicate (2 ^ 63) (CallAddTreat (Some 0))) newMemoryDB heap0)))"
  by (rule counter_wraps) (rule refl)

text \<open>
  C3. \<^verbatim>\<open>ListTreats\<close> of the in-memory store, in every state and for every order in
  which the runtime enumerates the map, returns without error a slice that holds
  exactly the stored records and is sorted by title in ascending byte-wise
  lexicographic order. On an empty store the slice is empty.
\<close>

theorem ListTreats_sorted:
  assumes "enumerates kvs db"
  shows "\<exists>ts. memoryDB_ListTreats db h kvs = (Ok ts, db, h) \<and>
           sorted (map (\<lambda>a. Title (h a)) ts) \<and> mset ts = stored db \<and>
           (treats db = Some Map.empty \<longrightarrow> ts = [])"
proof (cases "treats db")
  case None
  then show ?thesis by (simp add: memoryDB_ListTreats_def stored_def)
next
  case (Some m)
  with assms have r: "range_of m kvs" by (simp add: enumerates_def)
  let ?ts = "sort_Slice (title_less h) (map snd kvs)"
  have 1: "memoryDB_ListTreats db h kvs = (Ok ?ts, db, h)"
    using Some by (simp add: memoryDB_ListTreats_def)
  have 2: "sorted (map (\<lambda>a. Title (h a)) ?ts)"
    unfolding title_less_eq by (rule sorted_sort_Slice)
  have 3: "mset ?ts = stored db"
    using Some range_of_values [OF r] by (simp add: mset_sort_Slice stored_def)
  have 4: "treats db = Some Map.empty \<longrightarrow> ?ts = []"
    using Some r by (auto simp: range_of_def sort_Slice_def)
  from 1 2 3 4 show ?thesis by blast
qed

text \<open>
  An instance, the scenario of the specification: the store holds Zeta under id 1 and
  Alpha under id 2, and the listing is Alpha, Zeta.
\<close>

theorem ListTreats_sorted_witness:
  "enumerates [(''1'', 0), (''2'', 1)] db_ZA \<and>
   memoryDB_ListTreats db_ZA heap_ZA [(''1'', 0), (''2'', 1)] = (Ok [1, 0], db_ZA, heap_ZA) \<and>
   sorted (map (\<lambda>a. Title (heap_ZA a)) [1, 0])"
proof -
  have r: "memoryDB_ListTreats db_ZA heap_ZA [(''1'', 0), (''2'', 1)] = (Ok [1, 0], db_ZA, heap_ZA)"
    by (simp add: memoryDB_ListTreats_def db_ZA_def sort_Slice_def title_less_def heap_ZA_def)
  from ListTreats_sorted [OF enum_ZA, of heap_ZA] obtain ts
    where t: "memoryDB_ListTreats db_ZA heap_ZA [(''1'', 0), (''2'', 1)] = (Ok ts, db_ZA, heap_ZA)"
      and s: "sorted (map (\<lambda>a. Title (heap_ZA a)) ts)"
    by blast
  from r t have "ts = [1, 0]" by simp
  with s r enum_ZA show ?thesis by simp
qed

text \<open>
  C4. When \<^verbatim>\<open>AddTreat\<close> returns an id, \<^verbatim>\<open>GetTreat\<close> of that id returns the pointer that
  was added, and the struct it points to is the one that was passed in with only its id
  field changed, to the assigned id.
\<close>

theorem Get_after_Add:
  assumes "memoryDB_AddTreat db h t = (Ok i, db', h')"
  shows "\<exists>a. t = Some a \<and> memoryDB_GetTreat db' h' i = (Ok (Some a), db', h') \<and>
         h' a = (h a)\<lparr>ID := i\<rparr>"
  using assms
  by (auto simp: memoryDB_AddTreat_def memoryDB_GetTreat_def Let_def split: option.splits)

text \<open>
  An instance: adding the record at address 0 to a new store.
\<close>

theorem Get_after_Add_witness:
  "memoryDB_AddTreat newMemoryDB heap_7 (Some 0)
     = (Ok ''1'', \<lparr>nextID = 2, treats = Some [''1'' \<mapsto> 0]\<rparr>, heap_7(0 := (heap_7 0)\<lparr>ID := ''1''\<rparr>)) \<and>
   memoryDB_GetTreat \<lparr>nextID = 2, treats = Some [''1'' \<mapsto> 0]\<rparr> (heap_7(0 := (heap_7 0)\<lparr>ID := ''1''\<rparr>)) ''1''
     = (Ok (Some 0), \<lparr>nextID = 2, treats = Some [''1'' \<mapsto> 0]\<rparr>, heap_7(0 := (heap_7 0)\<lparr>ID := ''1''\<rparr>))"
proof -
  have a: "memoryDB_AddTreat newMemoryDB heap_7 (Some 0)
     = (Ok ''1'', \<lparr>nextID = 2, treats = Some [''1'' \<mapsto> 0]\<rparr>, heap_7(0 := (heap_7 0)\<lparr>ID := ''1''\<rparr>))"
    by (simp add: memoryDB_AddTreat_def newMemoryDB_def Let_def FormatInt_def dec.simps digit_char_def)
  from Get_after_Add [OF a] a show ?thesis by auto
qed

text \<open>
  C6. \<^verbatim>\<open>DeleteTreat\<close> of the in-memory store fails with an invalid-argument error on
  the empty id, and with a not-found error on every non-empty id that is not present;
  on a new store no id is present. The store is left as it was.
\<close>

theorem DeleteTreat_errors:
  "memoryDB_DeleteTreat db h [] = (Err MemDeleteUnassigned, db, h) \<and>
   kind_of MemDeleteUnassigned = InvalidArgument \<and>
   (i \<noteq> [] \<longrightarrow> \<not> present db i \<longrightarrow>
      memoryDB_DeleteTreat db h i = (Err (MemDeleteNotExist i), db, h) \<and>
      kind_of (MemDeleteNotExist i) = NotFound) \<and>
   (i \<noteq> [] \<longrightarrow> \<not> present newMemoryDB i)"
  by (auto simp: memoryDB_DeleteTreat_def present_def newMemoryDB_def split: option.splits)

text \<open>
  An instance, the scenario of the specification: deleting id 1 and the empty id on a
  new store.
\<close>

theorem DeleteTreat_errors_witness:
  "''1'' \<noteq> [] \<and> \<not> present newMemoryDB ''1'' \<and>
   memoryDB_DeleteTreat newMemoryDB heap0 ''1'' = (Err (MemDeleteNotExist ''1''), newMemoryDB, heap0) \<and>
   memoryDB_DeleteTreat newMemoryDB heap0 [] = (Err MemDeleteUnassigned, newMemoryDB, heap0)"
proof -
  have n: "''1'' \<noteq> []" by simp
  from DeleteTreat_errors [of newMemoryDB heap0 "''1''"] n show ?thesis by blast
qed

text \<open>
  C7. After \<^verbatim>\<open>Close\<close>. The specification has every later call return an error or
  behave as on an empty store. \<^verbatim>\<open>ListTreats\<close> returns the empty slice without error,
  \<^verbatim>\<open>GetTreat\<close> and \<^verbatim>\<open>DeleteTreat\<close> return an error, and \<^verbatim>\<open>UpdateTreat\<close> of a record with
  an empty id returns an error; these three return what they return on an empty store.
  \<^verbatim>\<open>AddTreat\<close>, and \<^verbatim>\<open>UpdateTreat\<close> of a record with a non-empty id, do neither: they
  panic on the assignment to the nil map (\<^verbatim>\<open>AddTreat\<close> after it has written the id into
  the caller's struct).
\<close>

theorem after_Close:
  assumes "memoryDB_Close db0 h0 = (r, db, h)"
  shows "memoryDB_ListTreats db h kvs = (Ok [], db, h) \<and>
    memoryDB_GetTreat db h i = (Err (MemGetNotFound i), db, h) \<and>
    (\<exists>e. memoryDB_DeleteTreat db h i = (Err e, db, h)) \<and>
    (ID (h a) = [] \<longrightarrow> memoryDB_UpdateTreat db h (Some a) = (Err MemUpdateUnassigned, db, h)) \<and>
    (ID (h a) \<noteq> [] \<longrightarrow> memoryDB_UpdateTreat db h (Some a) = (Panic NilMapAssignment, db, h)) \<and>
    memoryDB_AddTreat db h (Some a)
      = (Panic NilMapAssignment, db, h(a := (h a)\<lparr>ID := FormatInt (nextID db)\<rparr>)) \<and>
    fst (memoryDB_ListTreats db h kvs) = fst (memoryDB_ListTreats (db\<lparr>treats := Some Map.empty\<rparr>) h []) \<and>
    fst (memoryDB_GetTreat db h i) = fst (memoryDB_GetTreat (db\<lparr>treats := Some Map.empty\<rparr>) h i) \<and>
    fst (memoryDB_DeleteTreat db h i) = fst (memoryDB_DeleteTreat (db\<lparr>treats := Some Map.empty\<rparr>) h i)"
proof -
  from assms have n: "treats db = None" by (auto simp: memoryDB_Close_def)
  have 1: "memoryDB_ListTreats db h kvs = (Ok [], db, h)"
    using n by (simp add: memoryDB_ListTreats_def)
  have 2: "memoryDB_GetTreat db h i = (Err (MemGetNotFound i), db, h)"
    using n by (simp add: memoryDB_GetTreat_def)
  have 3: "\<exists>e. memoryDB_DeleteTreat db h i = (Err e, db, h)"
    using n by (simp add: memoryDB_DeleteTreat_def)
  have 4: "ID (h a) = [] \<longrightarrow> memoryDB_UpdateTreat db h (Some a) = (Err MemUpdateUnassigned, db, h)"
    by (simp add: memoryDB_UpdateTreat_def)
  have 5: "ID (h a) \<noteq> [] \<longrightarrow> memoryDB_UpdateTreat db h (Some a) = (Panic NilMapAssignment, db, h)"
    using n by (simp add: memoryDB_UpdateTreat_def)
  have 6: "memoryDB_AddTreat db h (Some a)
      = (Panic NilMapAssignment, db, h(a := (h a)\<lparr>ID := FormatInt (nextID db)\<rparr>))"
    using n by (simp add: memoryDB_AddTreat_def)
  have 7: "fst (memoryDB_ListTreats db h kvs) = fst (memoryDB_ListTreats (db\<lparr>treats := Some Map.empty\<rparr>) h [])"
    using n by (simp add: memoryDB_ListTreats_def sort_Slice_def)
  have 8: "fst (memoryDB_GetTreat db h i) = fst (memoryDB_GetTreat (db\<lparr>treats := Some Map.empty\<rparr>) h i)"
    using n by (simp add: memoryDB_GetTreat_def)
  have 9: "fst (memoryDB_DeleteTreat db h i) = fst (memoryDB_DeleteTreat (db\<lparr>treats := Some Map.empty\<rparr>) h i)"
    using n by (simp add: memoryDB_DeleteTreat_def)
  from 1 2 3 4 5 6 7 8 9 show ?thesis by blast
qed

text \<open>
  An instance: closing the store that holds Zeta and Alpha.
\<close>

theorem after_Close_witness:
  "memoryDB_Close db_ZA heap_ZA = (Ok (), db_ZA\<lparr>treats := None\<rparr>, heap_ZA) \<and>
   memoryDB_ListTreats (db_ZA\<lparr>treats := None\<rparr>) heap_ZA [] = (Ok [], db_ZA\<lparr>treats := None\<rparr>, heap_ZA) \<and>
   memoryDB_UpdateTreat (db_ZA\<lparr>treats := None\<rparr>) heap_ZA (Some 0)
     = (Panic NilMapAssignment, db_ZA\<lparr>treats := None\<rparr>, heap_ZA) \<and>
   memoryDB_UpdateTreat (db_ZA\<lparr>treats := None\<rparr>) heap_ZA (Some 2)
     = (Err MemUpdateUnassigned, db_ZA\<lparr>treats := None\<rparr>, heap_ZA)"
proof -
  have c: "memoryDB_Close db_ZA heap_ZA = (Ok (), db_ZA\<lparr>treats := None\<rparr>, heap_ZA)"
    by (simp add: memoryDB_Close_def)
  have 0: "ID (heap_ZA 0) \<noteq> []" and 2: "ID (heap_ZA 2) = []"
    by (simp_all add: heap_ZA_def zero_Treat_def)
  from after_Close [OF c, of "[]" "[]" 0] after_Close [OF c, of "[]" "[]" 2] c 0 2
  show ?thesis by blast
qed

text \<open>
  The claim as the specification states it fails for \<^verbatim>\<open>AddTreat\<close>: after \<^verbatim>\<open>Close\<close> it
  panics, where on an empty store it returns the id 1.
\<close>

theorem Add_after_Close_counterexample:
  "results_of [CallClose, CallAddTreat (Some 0)] newMemoryDB heap0
     = [Ok RNone, Panic NilMapAssignment] \<and>
   results_of [CallAddTreat (Some 0)] newMemoryDB heap0 = [Ok (RId ''1'')]"
  by (simp add: results_of_def newMemoryDB_def store_defs FormatInt_def dec.simps digit_char_def)

text \<open>
  C8. The invariant that every stored record has a non-empty id equal to its key. The
  store keeps pointers and \<^verbatim>\<open>AddTreat\<close> writes the id through the pointer, so the
  invariant needs that \<^verbatim>\<open>AddTreat\<close> is not given a pointer the map already holds. With
  that, the invariant holds in every state reached from a new store by calls of the six
  methods, and every call preserves it.
\<close>

theorem store_invariant:
  "(reachable_fresh db h \<longrightarrow> store_inv db h) \<and>
   (store_inv db h \<longrightarrow> fresh_record c db \<longrightarrow>
      store_inv (db_after [c] db h) (heap_after [c] db h))"
proof -
  have "store_inv db h \<Longrightarrow> fresh_record c db \<Longrightarrow> store_inv (db_after [c] db h) (heap_after [c] db h)"
    using step_store_inv [of db h c "fst (step c db h)" "fst (snd (step c db h))" "snd (snd (step c db h))"]
    by (simp add: db_after_def heap_after_def split_beta)
  then show ?thesis using reachable_store_inv by blast
qed

text \<open>
  An instance: the store after one \<^verbatim>\<open>AddTreat\<close>, and after a second one of another
  record.
\<close>

theorem store_invariant_witness:
  "reachable_fresh (db_after [CallAddTreat (Some 0)] newMemoryDB heap0)
     (heap_after [CallAddTreat (Some 0)] newMemoryDB heap0) \<and>
   store_inv (db_after [CallAddTreat (Some 0)] newMemoryDB heap0)
     (heap_after [CallAddTreat (Some 0)] newMemoryDB heap0) \<and>
   fresh_record (CallAddTreat (Some 1)) (db_after [CallAddTreat (Some 0)] newMemoryDB heap0) \<and>
   store_inv
     (db_after [CallAddTreat (Some 1)] (db_after [CallAddTreat (Some 0)] newMemoryDB heap0)
        (heap_after [CallAddTreat (Some 0)] newMemoryDB heap0))
     (heap_after [CallAddTreat (Some 1)] (db_after [CallAddTreat (Some 0)] newMemoryDB heap0)
        (heap_after [CallAddTreat (Some 0)] newMemoryDB heap0))"
proof -
  let ?db = "db_after [CallAddTreat (Some 0)] newMemoryDB heap0"
  let ?h = "heap_after [CallAddTreat (Some 0)] newMemoryDB heap0"
  have s: "step (CallAddTreat (Some 0)) newMemoryDB heap0
      = (fst (step (CallAddTreat (Some 0)) newMemoryDB heap0), ?db, ?h)"
    by (simp add: db_after_def heap_after_def split_beta)
  have f0: "fresh_record (CallAddTreat (Some 0)) newMemoryDB"
    by (simp add: newMemoryDB_def)
  have a: "reachable_fresh ?db ?h"
    by (rule reachable_fresh.after_call [OF reachable_fresh.initial f0 s])
  have t: "treats ?db = Some [FormatInt 1 \<mapsto> 0]"
    by (simp add: db_after_def newMemoryDB_def returning_def memoryDB_AddTreat_def Let_def
        split_beta)
  have b: "fresh_record (CallAddTreat (Some 1)) ?db"
    by (simp add: t)
  from store_invariant [of ?db ?h "CallAddTreat (Some 1)"] a b
  show ?thesis by blast
qed

text \<open>
  Without the condition the claim fails: after the same pointer is added twice, the
  record stored under id 1 has the id 2.
\<close>

theorem aliased_add_counterexample:
  "store_inv (db_after [CallAddTreat (Some 0)] newMemoryDB heap0)
     (heap_after [CallAddTreat (Some 0)] newMemoryDB heap0) \<and>
   \<not> store_inv (db_after [CallAddTreat (Some 0), CallAddTreat (Some 0)] newMemoryDB heap0)
     (heap_after [CallAddTreat (Some 0), CallAddTreat (Some 0)] newMemoryDB heap0)"
proof
  show "store_inv (db_after [CallAddTreat (Some 0)] newMemoryDB heap0)
     (heap_after [CallAddTreat (Some 0)] newMemoryDB heap0)"
    by (simp add: db_after_def heap_after_def store_inv_def newMemoryDB_def returning_def
        memoryDB_AddTreat_def Let_def FormatInt_def dec.simps digit_char_def)
next
  let ?db = "db_after [CallAddTreat (Some 0), CallAddTreat (Some 0)] newMemoryDB heap0"
  let ?h = "heap_after [CallAddTreat (Some 0), CallAddTreat (Some 0)] newMemoryDB heap0"
  have t: "treats ?db = Some [''1'' \<mapsto> 0, ''2'' \<mapsto> 0]"
    by (simp add: db_after_def newMemoryDB_def returning_def
        memoryDB_AddTreat_def Let_def FormatInt_def dec.simps digit_char_def)
  have i: "ID (?h 0) = ''2''"
    by (simp add: heap_after_def newMemoryDB_def returning_def
        memoryDB_AddTreat_def Let_def FormatInt_def dec.simps digit_char_def)
  show "\<not> store_inv ?db ?h"
  proof
    assume "store_inv ?db ?h"
    with t have "\<forall>k a. [''1'' \<mapsto> 0, ''2'' \<mapsto> 0] k = Some a \<longrightarrow> k \<noteq> [] \<and> ID (?h a) = k"
      by (simp add: store_inv_def)
    then have "ID (?h 0) = ''1''" by simp
    with i show False by simp
  qed
qed

text \<open>
  C9. \<^verbatim>\<open>GetTreat\<close> of the Firestore adapter when the fetched document does not decode
  into a \<^verbatim>\<open>Treat\<close>. The specification has the failure returned as a backend error.
  The adapter drops the error that \<^verbatim>\<open>DataTo\<close> returns: it returns the struct as far as
  it was filled, with a nil error.
\<close>

theorem Firestore_GetTreat_drops_decoding_error:
  assumes "doc_Get cl i s = Inr ds" and "snapshot_DataTo cl ds zero_Treat = (Some e, t)"
  shows "firestoreDB_GetTreat cl s i = Ok t"
  using assms by (simp add: firestoreDB_GetTreat_def)

text \<open>
  An instance: a document one of whose fields does not fit the struct.
\<close>

theorem Firestore_GetTreat_drops_decoding_error_witness:
  "doc_Get mistyped_client ''1'' [''1'' \<mapsto> heap_7 0] = Inr (heap_7 0) \<and>
   snapshot_DataTo mistyped_client (heap_7 0) zero_Treat
     = (Some ''cannot set type string to int'', zero_Treat) \<and>
   firestoreDB_GetTreat mistyped_client [''1'' \<mapsto> heap_7 0] ''1'' = Ok zero_Treat"
proof -
  have a: "doc_Get mistyped_client ''1'' [''1'' \<mapsto> heap_7 0] = Inr (heap_7 0)"
    by (simp add: mistyped_client_def)
  have b: "snapshot_DataTo mistyped_client (heap_7 0) zero_Treat
     = (Some ''cannot set type string to int'', zero_Treat)"
    by (simp add: mistyped_client_def heap_7_def zero_Treat_def)
  from Firestore_GetTreat_drops_decoding_error [OF a b] a b show ?thesis by blast
qed

text \<open>
  C10. A call on the in-memory store that returns an error leaves the map, the counter
  and the heap as they were; and \<^verbatim>\<open>GetTreat\<close> of an id that is not present,
  \<^verbatim>\<open>DeleteTreat\<close> of the empty id or of an id that is not present, and \<^verbatim>\<open>UpdateTreat\<close>
  of a record with an empty id do return an error.
\<close>

theorem error_leaves_state:
  "(step c db h = (Err e, db', h') \<longrightarrow> db' = db \<and> h' = h) \<and>
   (\<not> present db i \<longrightarrow> memoryDB_GetTreat db h i = (Err (MemGetNotFound i), db, h)) \<and>
   memoryDB_DeleteTreat db h [] = (Err MemDeleteUnassigned, db, h) \<and>
   (i \<noteq> [] \<longrightarrow> \<not> present db i \<longrightarrow>
      memoryDB_DeleteTreat db h i = (Err (MemDeleteNotExist i), db, h)) \<and>
   (ID (h a) = [] \<longrightarrow> memoryDB_UpdateTreat db h (Some a) = (Err MemUpdateUnassigned, db, h))"
proof -
  have 1: "step c db h = (Err e, db', h') \<longrightarrow> db' = db \<and> h' = h"
    by (cases c) (auto simp: store_defs split: option.splits if_splits)
  have 2: "\<not> present db i \<longrightarrow> memoryDB_GetTreat db h i = (Err (MemGetNotFound i), db, h)"
    by (auto simp: present_def memoryDB_GetTreat_def split: option.splits)
  have 3: "memoryDB_DeleteTreat db h [] = (Err MemDeleteUnassigned, db, h)"
    by (simp add: memoryDB_DeleteTreat_def)
  have 4: "i \<noteq> [] \<longrightarrow> \<not> present db i \<longrightarrow>
      memoryDB_DeleteTreat db h i = (Err (MemDeleteNotExist i), db, h)"
    by (auto simp: present_def memoryDB_DeleteTreat_def split: option.splits)
  have 5: "ID (h a) = [] \<longrightarrow> memoryDB_UpdateTreat db h (Some a) = (Err MemUpdateUnassigned, db, h)"
    by (simp add: memoryDB_UpdateTreat_def)
  from 1 2 3 4 5 show ?thesis by blast
qed

text \<open>
  An instance: the store that holds Zeta and Alpha, the absent id 9 and a record
  without id.
\<close>

theorem error_leaves_state_witness:
  "step (CallGetTreat ''9'') db_ZA heap_ZA = (Err (MemGetNotFound ''9''), db_ZA, heap_ZA) \<and>
   \<not> present db_ZA ''9'' \<and>
   memoryDB_DeleteTreat db_ZA heap_ZA ''9'' = (Err (MemDeleteNotExist ''9''), db_ZA, heap_ZA) \<and>
   ID (heap_ZA 2) = [] \<and>
   memoryDB_UpdateTreat db_ZA heap_ZA (Some 2) = (Err MemUpdateUnassigned, db_ZA, heap_ZA)"
proof -
  have p: "\<not> present db_ZA ''9''" by (simp add: present_def db_ZA_def)
  have n: "''9'' \<noteq> []" by simp
  have z: "ID (heap_ZA 2) = []" by (simp add: heap_ZA_def zero_Treat_def)
  from error_leaves_state [of "CallGetTreat ''9''" db_ZA heap_ZA "MemGetNotFound ''9''"
      db_ZA heap_ZA "''9''" 2] p n z
  have g: "memoryDB_GetTreat db_ZA heap_ZA ''9'' = (Err (MemGetNotFound ''9''), db_ZA, heap_ZA)"
    and d: "memoryDB_DeleteTreat db_ZA heap_ZA ''9'' = (Err (MemDeleteNotExist ''9''), db_ZA, heap_ZA)"
    and u: "memoryDB_UpdateTreat db_ZA heap_ZA (Some 2) = (Err MemUpdateUnassigned, db_ZA, heap_ZA)"
    by blast+
  from g have "step (CallGetTreat ''9'') db_ZA heap_ZA = (Err (MemGetNotFound ''9''), db_ZA, heap_ZA)"
    by (simp add: returning_def)
  with p d z u show ?thesis by blast
qed

end
